theory Spec2Isabelle
  imports Complex_Main "HOL-Library.Char_ord" "HOL-Library.List_Lexorder"
begin

text \<open>
  A shallow embedding of the transactional core of the task tracker: the retry-aware
  transaction executor, the task model and service (single-entity and bulk operations),
  the WebSocket publisher, the paginated listing with its query validation, and the
  check that invalidates tokens issued before a password change. Asynchronous calls are
  run to completion one after the other; the clock, the generated ids and bcrypt are
  parameters of the functions that use them.
\<close>

section \<open>Errors and the retry-aware transaction executor (utils/transaction.util.js)\<close>

text \<open>
  A thrown JavaScript error object, reduced to what the executor and the database driver
  inspect: its message, its numeric \<open>code\<close> property (\<open>None\<close> when the property is missing
  or is not a number), whether it is an instance of the driver's \<open>MongoError\<close> (which
  inherits a \<open>hasErrorLabel\<close> method), whether \<open>hasErrorLabel\<close> is an own property of the
  object (the executor asks \<open>error.hasOwnProperty('hasErrorLabel')\<close> before calling it), and
  the labels \<open>hasErrorLabel\<close> answers to.
\<close>

record js_error =
  message :: string
  code :: "int option"
  mongoError :: bool
  hasErrorLabel_own :: bool
  errorLabels :: "string list"

text \<open>\<open>new Error(msg)\<close>: a plain error, with no code and no label, not a \<open>MongoError\<close>.\<close>

definition Error :: "string \<Rightarrow> js_error" where
  "Error msg = \<lparr>message = msg, code = None, mongoError = False, hasErrorLabel_own = False,
     errorLabels = []\<rparr>"

definition retryableErrorCodes :: "int list" where
  "retryableErrorCodes = [11000, 16500, 17280, 251]"

definition retryableLabels :: "string list" where
  "retryableLabels = [''TransientTransactionError'', ''UnknownTransactionCommitResult'']"

definition isRetryableError :: "js_error \<Rightarrow> bool" where
  "isRetryableError err =
     ((case code err of None \<Rightarrow> False | Some c \<Rightarrow> c \<in> set retryableErrorCodes) \<or>
      list_ex (\<lambda>label. hasErrorLabel_own err \<and> label \<in> set (errorLabels err)) retryableLabels)"

text \<open>
  The world a unit of work runs in: \<open>db\<close> is the persisted state a transaction protects,
  \<open>env\<close> is everything outside it (it is not rolled back when a transaction aborts), and
  \<open>txn_window\<close> says how many times the driver can run the callback of a
  \<open>session.withTransaction\<close> call that starts in this world again before the 120 seconds
  it allows itself have passed.
\<close>

record ('d, 'e) world =
  db :: 'd
  env :: 'e
  txn_window :: nat

type_synonym ('d, 'e, 'a) operations = "('d, 'e) world \<Rightarrow> (js_error + 'a) \<times> ('d, 'e) world"

text \<open>
  The driver's \<open>session.withTransaction\<close>, which \<open>withTransaction\<close> delegates to: it starts
  a transaction and runs the callback; when the callback throws, the transaction is aborted
  (the writes to \<open>db\<close> are discarded), and if the error is a \<open>MongoError\<close> labelled
  \<open>TransientTransactionError\<close> and the time window is still open, the callback is run
  again in a new transaction; any other error, and the last one when the window has
  closed, is rethrown. The commit after a callback that returned is taken to succeed.
\<close>

definition driver_reruns_on :: "js_error \<Rightarrow> bool" where
  "driver_reruns_on err =
     (mongoError err \<and> ''TransientTransactionError'' \<in> set (errorLabels err))"

primrec transaction_loop ::
  "nat \<Rightarrow> ('d, 'e, 'a) operations \<Rightarrow> ('d, 'e) world \<Rightarrow> (js_error + 'a) \<times> ('d, 'e) world" where
  "transaction_loop 0 operations w =
     (case operations w of
        (Inl err, w') \<Rightarrow> (Inl err, w'\<lparr>db := db w\<rparr>)
      | (Inr result, w') \<Rightarrow> (Inr result, w'))"
| "transaction_loop (Suc reruns) operations w =
     (case operations w of
        (Inl err, w') \<Rightarrow>
          (if driver_reruns_on err then transaction_loop reruns operations (w'\<lparr>db := db w\<rparr>)
           else (Inl err, w'\<lparr>db := db w\<rparr>))
      | (Inr result, w') \<Rightarrow> (Inr result, w'))"

text \<open>
  \<open>withTransaction\<close>: \<open>session.withTransaction(async () => { result = await
  operations(session) })\<close>, the result returned and an error rethrown as it is.
\<close>

definition withTransaction ::
  "('d, 'e, 'a) operations \<Rightarrow> ('d, 'e) world \<Rightarrow> (js_error + 'a) \<times> ('d, 'e) world" where
  "withTransaction operations w = transaction_loop (txn_window w) operations w"

text \<open>
  What \<open>withRetryableTransaction\<close> can throw: an error of the unit of work, or
  \<open>undefined\<close> (\<open>lastError\<close> is never assigned when the loop body never runs).
\<close>

datatype thrown = Undefined | Thrown js_error

text \<open>
  The \<open>for (let attempt = 1; attempt <= maxRetries; attempt++)\<close> loop; each attempt is one
  call of \<open>withTransaction\<close>. The last component of the result lists the \<open>setTimeout\<close>
  delays (milliseconds) the loop has waited for, one per retry.
\<close>

function retry_loop ::
  "('d, 'e, 'a) operations \<Rightarrow> nat \<Rightarrow> nat \<Rightarrow> thrown \<Rightarrow> ('d, 'e) world \<Rightarrow> nat list \<Rightarrow>
     (thrown + 'a) \<times> ('d, 'e) world \<times> nat list" where
  "retry_loop operations maxRetries attempt lastError w sleeps =
     (if attempt \<le> maxRetries then
        (case withTransaction operations w of
           (Inr result, w') \<Rightarrow> (Inr result, w', sleeps)
         | (Inl err, w') \<Rightarrow>
             (if isRetryableError err \<and> attempt < maxRetries
              then retry_loop operations maxRetries (attempt + 1) (Thrown err) w'
                     (sleeps @ [2 ^ attempt * 100])
              else (Inl (Thrown err), w', sleeps)))
      else (Inl lastError, w, sleeps))"
  by pat_completeness auto
termination
  by (relation "measure (\<lambda>(operations, maxRetries, attempt, lastError, w, sleeps).
        maxRetries + 1 - attempt)") auto

declare retry_loop.simps [simp del]

definition withRetryableTransaction ::
  "('d, 'e, 'a) operations \<Rightarrow> nat \<Rightarrow> ('d, 'e) world \<Rightarrow>
     (thrown + 'a) \<times> ('d, 'e) world \<times> nat list" where
  "withRetryableTransaction operations maxRetries w =
     retry_loop operations maxRetries 1 Undefined w []"

text \<open>
  The world in which attempt number \<open>n + 1\<close> starts (\<open>n\<close> failed attempts behind it), and
  what that attempt yields.
\<close>

definition world_after :: "('d, 'e, 'a) operations \<Rightarrow> nat \<Rightarrow> ('d, 'e) world \<Rightarrow> ('d, 'e) world" where
  "world_after operations n w = ((\<lambda>v. snd (withTransaction operations v)) ^^ n) w"

definition attempt_outcome :: "('d, 'e, 'a) operations \<Rightarrow> nat \<Rightarrow> ('d, 'e) world \<Rightarrow> js_error + 'a" where
  "attempt_outcome operations n w = fst (withTransaction operations (world_after operations n w))"

text \<open>The delays waited for after failed attempts \<open>a, a + 1, ..., a + k - 1\<close>.\<close>

definition backoff_delays :: "nat \<Rightarrow> nat \<Rightarrow> nat list" where
  "backoff_delays a k = map (\<lambda>attempt. 2 ^ attempt * 100) [a..<a + k]"

text \<open>
  A unit of work for exercising the executor: it plays back a script of outcomes kept in
  \<open>env\<close>, one per run.
\<close>

definition scripted :: "(unit, (js_error + string) list, string) operations" where
  "scripted w =
     (case env w of
        [] \<Rightarrow> (Inl (Error ''script exhausted''), w)
      | outcome # rest \<Rightarrow> (outcome, w\<lparr>env := rest\<rparr>))"

definition script_world ::
  "nat \<Rightarrow> (js_error + string) list \<Rightarrow> (unit, (js_error + string) list) world" where
  "script_world window script = \<lparr>db = (), env = script, txn_window = window\<rparr>"

text \<open>
  Two errors of the storage engine, as the driver raises them: a write conflict inside a
  transaction (code 112, labelled transient) and a duplicate key (code 11000, no label).
\<close>

definition writeConflict :: js_error where
  "writeConflict = \<lparr>message = ''WriteConflict'', code = Some 112, mongoError = True,
     hasErrorLabel_own = False, errorLabels = [''TransientTransactionError'']\<rparr>"

definition duplicateKey :: js_error where
  "duplicateKey = \<lparr>message = ''E11000 duplicate key error collection: users index: email_1'',
     code = Some 11000, mongoError = True, hasErrorLabel_own = False, errorLabels = []\<rparr>"

section \<open>JavaScript values\<close>

text \<open>
  Numbers are IEEE doubles. The numbers the modelled code computes with are integers, the
  infinities and \<open>NaN\<close>; an integer result is rounded to the nearest double, ties to the
  even significand, and to an infinity beyond the largest finite double.
\<close>

datatype js_number = Num int | Infinity | NegInfinity | NaN







text \<open>
  A count as a template string prints it, in decimal; \<open>Number\<close> of a string of decimal
  digits.
\<close>

fun count_text :: "nat \<Rightarrow> string" where
  "count_text n =
     (if n div 10 = 0 then [char_of (of_char CHR ''0'' + n)]
      else count_text (n div 10) @ [char_of (of_char CHR ''0'' + n mod 10)])"

declare count_text.simps [simp del]




text \<open>
  \<open>String.prototype.trim\<close>, which the schema setters (\<open>trim: true\<close>) and the query schema
  apply; strings are bytes, and the white space removed is the ASCII one.
\<close>

definition is_space :: "char \<Rightarrow> bool" where
  "is_space c = (c \<in> set [CHR '' '', CHR 0x09, CHR 0x0A, CHR 0x0B, CHR 0x0C, CHR 0x0D])"

definition trim :: "string \<Rightarrow> string" where
  "trim s = rev (dropWhile is_space (rev (dropWhile is_space s)))"

section \<open>The Task model (models/Task.model.js)\<close>

text \<open>
  Object ids are compared through \<open>toString()\<close>, so they are modelled as strings; dates are
  milliseconds since the epoch (\<open>getTime()\<close>), and \<open>null\<close> is \<open>None\<close>. Status and priority
  are typed, so a value outside the schema's \<open>enum\<close> is not a value of the model.
\<close>

type_synonym object_id = string
type_synonym date = int

datatype task_status = Pending | InProgress | Completed

datatype task_priority = Low | Medium | High | Urgent

record task =
  task_id :: object_id
  title :: string
  description :: string
  status :: task_status
  user :: object_id
  priority :: task_priority
  dueDate :: "date option"
  completedAt :: "date option"
  tags :: "string list"
  createdAt :: date
  updatedAt :: date

text \<open>
  \<open>taskSchema.pre('save')\<close>. The first argument is \<open>this.isModified('status')\<close>, the second
  the clock read by \<open>new Date()\<close>.
\<close>

definition pre_save :: "bool \<Rightarrow> date \<Rightarrow> task \<Rightarrow> task" where
  "pre_save status_modified now t =
     (if status_modified then
        (if status t = Completed \<and> completedAt t = None then t\<lparr>completedAt := Some now\<rparr>
         else if status t \<noteq> Completed \<and> completedAt t \<noteq> None then t\<lparr>completedAt := None\<rparr>
         else t)
      else t)"

text \<open>
  The collection is the list of its documents, in insertion order. \<open>Task.find(filter)\<close>
  keeps the documents that satisfy the filter; \<open>Task.findById\<close> returns the first one
  with the id, or \<open>null\<close>.
\<close>

definition Task_find :: "(task \<Rightarrow> bool) \<Rightarrow> task list \<Rightarrow> task list" where
  "Task_find query store = filter query store"

definition findById :: "object_id \<Rightarrow> task list \<Rightarrow> task option" where
  "findById taskId store = find (\<lambda>t. task_id t = taskId) store"

text \<open>\<open>Task.findByIdAndDelete\<close>: removes the first document with the id.\<close>

primrec findByIdAndDelete :: "object_id \<Rightarrow> task list \<Rightarrow> task list" where
  "findByIdAndDelete taskId [] = []"
| "findByIdAndDelete taskId (t # store) =
     (if task_id t = taskId then store else t # findByIdAndDelete taskId store)"

text \<open>
  \<open>Task.deleteMany(filter)\<close> and \<open>Task.updateMany(filter, update)\<close>, each with the count
  it reports (\<open>deletedCount\<close>, \<open>modifiedCount\<close>: the matched documents the update changed).
  Neither runs the \<open>pre('save')\<close> hook: query middleware is not document middleware.
\<close>

definition deleteMany :: "(task \<Rightarrow> bool) \<Rightarrow> task list \<Rightarrow> nat \<times> task list" where
  "deleteMany query store = (length (filter query store), filter (\<lambda>t. \<not> query t) store)"

definition updateMany :: "(task \<Rightarrow> bool) \<Rightarrow> (task \<Rightarrow> task) \<Rightarrow> task list \<Rightarrow> nat \<times> task list" where
  "updateMany query update store =
     (length (filter (\<lambda>t. query t \<and> update t \<noteq> t) store),
      map (\<lambda>t. if query t then update t else t) store)"

text \<open>
  The validators of the schema that a string can fail, path by path, each with the message
  the schema declares: \<open>required\<close> (an empty string does not count as a value) and
  \<open>maxlength\<close> for the title and the description, \<open>maxlength\<close> for each tag. The
  \<open>ValidationError\<close> that \<open>save()\<close> throws lists the failed paths.
\<close>

definition title_issues :: "task \<Rightarrow> (string \<times> string) list" where
  "title_issues t =
     (if title t = [] then [(''title'', ''Task title is required'')]
      else if length (title t) > 100
      then [(''title'', ''Task title must not exceed 100 characters'')]
      else [])"

definition description_issues :: "task \<Rightarrow> (string \<times> string) list" where
  "description_issues t =
     (if description t = [] then [(''description'', ''Task description is required'')]
      else if length (description t) > 500
      then [(''description'', ''Task description must not exceed 500 characters'')]
      else [])"

definition tags_issues :: "task \<Rightarrow> (string \<times> string) list" where
  "tags_issues t =
     concat (map (\<lambda>(i, tag). if length tag > 20
                               then [(''tags.'' @ count_text i, ''Tag must not exceed 20 characters'')]
                               else [])
                 (enumerate 0 (tags t)))"

fun join_issues :: "(string \<times> string) list \<Rightarrow> string" where
  "join_issues [] = []"
| "join_issues [(path, msg)] = path @ '': '' @ msg"
| "join_issues ((path, msg) # others) = path @ '': '' @ msg @ '', '' @ join_issues others"

definition ValidationError :: "(string \<times> string) list \<Rightarrow> js_error" where
  "ValidationError failed =
     \<lparr>message = ''Task validation failed: '' @ join_issues failed, code = None,
      mongoError = False, hasErrorLabel_own = False, errorLabels = []\<rparr>"

text \<open>
  \<open>save()\<close> of a new document: the document is validated; the hook runs with the status
  marked modified (the constructor was given it), the timestamps are set, and the document
  is inserted; an \<open>_id\<close> that is already present is the storage engine's duplicate-key
  error.
\<close>

definition duplicate_id :: js_error where
  "duplicate_id = \<lparr>message = ''E11000 duplicate key error collection: tasks index: _id_'',
     code = Some 11000, mongoError = True, hasErrorLabel_own = False, errorLabels = []\<rparr>"

definition save_new :: "date \<Rightarrow> task \<Rightarrow> task list \<Rightarrow> js_error + (task \<times> task list)" where
  "save_new now t store =
     (let failed = title_issues t @ description_issues t @ tags_issues t;
          saved = (pre_save True now t)\<lparr>createdAt := now, updatedAt := now\<rparr>
      in if failed \<noteq> [] then Inl (ValidationError failed)
         else if task_id t \<in> set (map task_id store) then Inl duplicate_id
         else Inr (saved, store @ [saved]))"

text \<open>
  \<open>save()\<close> of a document loaded as \<open>old\<close> and since assigned to: a path is modified when
  its value differs from the loaded one; \<open>updatedAt\<close> is refreshed when the document has
  changed; the stored document with the id is replaced. The paths that can fail validation
  are the assigned ones: what was loaded is taken to have passed validation when it was
  saved (only \<open>updateMany\<close>, which does not validate, can store a document that would not).
\<close>

definition save_existing ::
  "date \<Rightarrow> task \<Rightarrow> task \<Rightarrow> task list \<Rightarrow> js_error + (task \<times> task list)" where
  "save_existing now old t store =
     (let failed = (if title t = title old then [] else title_issues t) @
                   (if description t = description old then [] else description_issues t) @
                   (if tags t = tags old then [] else tags_issues t);
          hooked = pre_save (status t \<noteq> status old) now t;
          saved = (if hooked = old then hooked else hooked\<lparr>updatedAt := now\<rparr>)
      in if failed \<noteq> [] then Inl (ValidationError failed)
         else Inr (saved, map (\<lambda>d. if task_id d = task_id old then saved else d) store))"

definition markAsCompleted ::
  "date \<Rightarrow> task \<Rightarrow> task list \<Rightarrow> js_error + (task \<times> task list)" where
  "markAsCompleted now t store =
     save_existing now t (t\<lparr>status := Completed, completedAt := Some now\<rparr>) store"

definition isOwnedBy :: "task \<Rightarrow> object_id \<Rightarrow> bool" where
  "isOwnedBy t userId = (user t = userId)"

text \<open>The data-model invariant of the specification.\<close>

definition completion_invariant :: "task \<Rightarrow> bool" where
  "completion_invariant t = ((status t = Completed) = (completedAt t \<noteq> None))"

section \<open>The WebSocket service (services/websocket.service.js)\<close>

datatype payload = TaskPayload task | TaskIdPayload object_id

record emission =
  room :: string
  event :: string
  payload :: payload

record socket =
  socket_id :: string
  socket_userId :: object_id
  rooms :: "string list"

text \<open>
  The connected sockets, every emission made, and what each socket has received
  (socket id, emission).
\<close>

record ws_state =
  sockets :: "socket list"
  emitted :: "emission list"
  received :: "(string \<times> emission) list"

definition user_room :: "object_id \<Rightarrow> string" where
  "user_room userId = ''user_'' @ userId"

text \<open>The \<open>connection\<close> handler, its \<open>join_user_room\<close> and \<open>disconnect\<close> handlers.\<close>

definition on_connection :: "string \<Rightarrow> object_id \<Rightarrow> ws_state \<Rightarrow> ws_state" where
  "on_connection sid userId ws =
     ws\<lparr>sockets := sockets ws @
        [\<lparr>socket_id = sid, socket_userId = userId, rooms = [sid, user_room userId]\<rparr>]\<rparr>"

definition join_user_room :: "string \<Rightarrow> object_id \<Rightarrow> ws_state \<Rightarrow> ws_state" where
  "join_user_room sid userId ws =
     ws\<lparr>sockets := map (\<lambda>s. if socket_id s = sid \<and> userId = socket_userId s
                                then s\<lparr>rooms := rooms s @ [user_room userId]\<rparr> else s)
                         (sockets ws)\<rparr>"

definition on_disconnect :: "string \<Rightarrow> ws_state \<Rightarrow> ws_state" where
  "on_disconnect sid ws = ws\<lparr>sockets := filter (\<lambda>s. socket_id s \<noteq> sid) (sockets ws)\<rparr>"

text \<open>\<open>this.io.to(room).emit(event, data)\<close>: every socket in the room receives it.\<close>

definition io_to_emit :: "string \<Rightarrow> string \<Rightarrow> payload \<Rightarrow> ws_state \<Rightarrow> ws_state" where
  "io_to_emit r ev data ws =
     (let e = \<lparr>room = r, event = ev, payload = data\<rparr>
      in ws\<lparr>emitted := emitted ws @ [e],
            received := received ws @
              map (\<lambda>s. (socket_id s, e)) (filter (\<lambda>s. r \<in> set (rooms s)) (sockets ws))\<rparr>)"

definition emitTaskCreated :: "object_id \<Rightarrow> task \<Rightarrow> ws_state \<Rightarrow> ws_state" where
  "emitTaskCreated userId t ws = io_to_emit (user_room userId) ''task_created'' (TaskPayload t) ws"

definition emitTaskUpdated :: "object_id \<Rightarrow> task \<Rightarrow> ws_state \<Rightarrow> ws_state" where
  "emitTaskUpdated userId t ws = io_to_emit (user_room userId) ''task_updated'' (TaskPayload t) ws"

definition emitTaskDeleted :: "object_id \<Rightarrow> object_id \<Rightarrow> ws_state \<Rightarrow> ws_state" where
  "emitTaskDeleted userId taskId ws =
     io_to_emit (user_room userId) ''task_deleted'' (TaskIdPayload taskId) ws"

section \<open>The task service (modules/task/task.service.js)\<close>

text \<open>
  The service's world: the task collection is the transactional state, the WebSocket
  service is outside it.
\<close>

type_synonym svc = "(task list, ws_state) world"

text \<open>
  \<open>taskData\<close> of \<open>createTask\<close>; an absent key is \<open>None\<close>. \<open>updateData\<close> of \<open>updateTask\<close> and
  \<open>bulkUpdateTasks\<close>, over the paths of the schema; \<open>dueDate\<close> and \<open>completedAt\<close> may be
  present with the value \<open>null\<close> (\<open>Some None\<close>).
\<close>

record task_data =
  d_title :: string
  d_description :: string
  d_status :: "task_status option"
  d_priority :: "task_priority option"
  d_dueDate :: "date option"
  d_tags :: "string list option"

record update_data =
  u_title :: "string option"
  u_description :: "string option"
  u_status :: "task_status option"
  u_user :: "object_id option"
  u_priority :: "task_priority option"
  u_dueDate :: "date option option"
  u_completedAt :: "date option option"
  u_tags :: "string list option"

definition no_update :: update_data where
  "no_update = \<lparr>u_title = None, u_description = None, u_status = None, u_user = None,
     u_priority = None, u_dueDate = None, u_completedAt = None, u_tags = None\<rparr>"

text \<open>
  \<open>Object.keys(updateData).forEach(key => { if (updateData[key] !== undefined) task[key] =
  updateData[key] })\<close>, and the same assignment as the \<open>$set\<close> of \<open>updateMany\<close>; the
  setters of the schema trim the title, the description and each tag on the way.
\<close>

definition assign_fields :: "update_data \<Rightarrow> task \<Rightarrow> task" where
  "assign_fields u t =
     t\<lparr>title := (case u_title u of None \<Rightarrow> title t | Some v \<Rightarrow> trim v),
       description := (case u_description u of None \<Rightarrow> description t | Some v \<Rightarrow> trim v),
       status := (case u_status u of None \<Rightarrow> status t | Some v \<Rightarrow> v),
       user := (case u_user u of None \<Rightarrow> user t | Some v \<Rightarrow> v),
       priority := (case u_priority u of None \<Rightarrow> priority t | Some v \<Rightarrow> v),
       dueDate := (case u_dueDate u of None \<Rightarrow> dueDate t | Some v \<Rightarrow> v),
       completedAt := (case u_completedAt u of None \<Rightarrow> completedAt t | Some v \<Rightarrow> v),
       tags := (case u_tags u of None \<Rightarrow> tags t | Some v \<Rightarrow> map trim v)\<rparr>"

text \<open>
  \<open>createTask\<close>. \<open>oid\<close> is the \<open>_id\<close> that \<open>new Task(...)\<close> generates, \<open>now\<close> the clock; the
  constructor applies the setters of the schema.
\<close>

definition createTask ::
  "object_id \<Rightarrow> date \<Rightarrow> task_data \<Rightarrow> object_id \<Rightarrow> svc \<Rightarrow> (js_error + task) \<times> svc" where
  "createTask oid now taskData userId w =
     (let t = \<lparr>task_id = oid,
                title = trim (d_title taskData),
                description = trim (d_description taskData),
                status = (case d_status taskData of None \<Rightarrow> Pending | Some s \<Rightarrow> s),
                user = userId,
                priority = (case d_priority taskData of None \<Rightarrow> Medium | Some p \<Rightarrow> p),
                dueDate = d_dueDate taskData,
                completedAt = None,
                tags = (case d_tags taskData of None \<Rightarrow> [] | Some ts \<Rightarrow> map trim ts),
                createdAt = now,
                updatedAt = now\<rparr>
      in case save_new now t (db w) of
           Inl err \<Rightarrow> (Inl err, w)
         | Inr (saved, store) \<Rightarrow>
             (Inr saved, w\<lparr>db := store, env := emitTaskCreated userId saved (env w)\<rparr>))"

definition getTaskById :: "object_id \<Rightarrow> object_id \<Rightarrow> svc \<Rightarrow> (js_error + task) \<times> svc" where
  "getTaskById taskId userId w =
     (case findById taskId (db w) of
        None \<Rightarrow> (Inl (Error ''Task not found''), w)
      | Some t \<Rightarrow>
          if \<not> isOwnedBy t userId
          then (Inl (Error ''Access denied: You can only access your own tasks''), w)
          else (Inr t, w))"

definition updateTask ::
  "date \<Rightarrow> object_id \<Rightarrow> update_data \<Rightarrow> object_id \<Rightarrow> svc \<Rightarrow> (js_error + task) \<times> svc" where
  "updateTask now taskId updateData userId w =
     (case findById taskId (db w) of
        None \<Rightarrow> (Inl (Error ''Task not found''), w)
      | Some t \<Rightarrow>
          if \<not> isOwnedBy t userId
          then (Inl (Error ''Access denied: You can only update your own tasks''), w)
          else (case save_existing now t (assign_fields updateData t) (db w) of
                  Inl err \<Rightarrow> (Inl err, w)
                | Inr (saved, store) \<Rightarrow>
                    (Inr saved, w\<lparr>db := store, env := emitTaskUpdated userId saved (env w)\<rparr>)))"

definition deleteTask :: "object_id \<Rightarrow> object_id \<Rightarrow> svc \<Rightarrow> (js_error + string) \<times> svc" where
  "deleteTask taskId userId w =
     (case findById taskId (db w) of
        None \<Rightarrow> (Inl (Error ''Task not found''), w)
      | Some t \<Rightarrow>
          if \<not> isOwnedBy t userId
          then (Inl (Error ''Access denied: You can only delete your own tasks''), w)
          else (Inr ''Task deleted successfully'',
                w\<lparr>db := findByIdAndDelete taskId (db w),
                  env := emitTaskDeleted userId taskId (env w)\<rparr>))"

definition markTaskAsCompleted ::
  "date \<Rightarrow> object_id \<Rightarrow> object_id \<Rightarrow> svc \<Rightarrow> (js_error + task) \<times> svc" where
  "markTaskAsCompleted now taskId userId w =
     (case findById taskId (db w) of
        None \<Rightarrow> (Inl (Error ''Task not found''), w)
      | Some t \<Rightarrow>
          if \<not> isOwnedBy t userId
          then (Inl (Error ''Access denied: You can only update your own tasks''), w)
          else if status t = Completed
          then (Inl (Error ''Task is already completed''), w)
          else (case markAsCompleted now t (db w) of
                  Inl err \<Rightarrow> (Inl err, w)
                | Inr (saved, store) \<Rightarrow>
                    (Inr saved, w\<lparr>db := store, env := emitTaskUpdated userId saved (env w)\<rparr>)))"

record bulk_update_result =
  update_message :: string
  modifiedCount :: nat
  taskIds_echo :: "object_id list"

record deleted_task =
  deleted_id :: object_id
  deleted_title :: string
  deleted_status :: task_status

record bulk_delete_result =
  delete_message :: string
  deletedCount :: nat
  deletedTasks :: "deleted_task list"

text \<open>
  The unit of work of \<open>bulkUpdateTasks\<close>: the update document is
  \<open>{...updateData, updatedAt: new Date()}\<close>.
\<close>

definition bulkUpdate_operations ::
  "date \<Rightarrow> object_id list \<Rightarrow> update_data \<Rightarrow> object_id \<Rightarrow>
     (task list, 'e, bulk_update_result) operations" where
  "bulkUpdate_operations now taskIds updateData userId w =
     (let found = Task_find (\<lambda>t. task_id t \<in> set taskIds \<and> user t = userId) (db w)
      in if length found \<noteq> length taskIds
         then (Inl (Error ''Some tasks not found or access denied''), w)
         else (case updateMany (\<lambda>t. task_id t \<in> set taskIds \<and> user t = userId)
                      (\<lambda>t. (assign_fields updateData t)\<lparr>updatedAt := now\<rparr>) (db w) of
                 (modified, store) \<Rightarrow>
                   (Inr \<lparr>update_message = count_text modified @ '' tasks updated successfully'',
                         modifiedCount = modified,
                         taskIds_echo = taskIds\<rparr>,
                    w\<lparr>db := store\<rparr>)))"

definition bulkUpdateTasks ::
  "date \<Rightarrow> object_id list \<Rightarrow> update_data \<Rightarrow> object_id \<Rightarrow> (task list, 'e) world \<Rightarrow>
     (thrown + bulk_update_result) \<times> (task list, 'e) world \<times> nat list" where
  "bulkUpdateTasks now taskIds updateData userId w =
     withRetryableTransaction (bulkUpdate_operations now taskIds updateData userId) 3 w"

definition bulkDelete_operations ::
  "object_id list \<Rightarrow> object_id \<Rightarrow> (task list, 'e, bulk_delete_result) operations" where
  "bulkDelete_operations taskIds userId w =
     (let found = Task_find (\<lambda>t. task_id t \<in> set taskIds \<and> user t = userId) (db w)
      in if length found \<noteq> length taskIds
         then (Inl (Error ''Some tasks not found or access denied''), w)
         else (let tasksToDelete =
                     map (\<lambda>t. \<lparr>deleted_id = task_id t, deleted_title = title t,
                                deleted_status = status t\<rparr>) found
               in case deleteMany (\<lambda>t. task_id t \<in> set taskIds \<and> user t = userId) (db w) of
                    (deleted, store) \<Rightarrow>
                      (Inr \<lparr>delete_message = count_text deleted @ '' tasks deleted successfully'',
                            deletedCount = deleted,
                            deletedTasks = tasksToDelete\<rparr>,
                       w\<lparr>db := store\<rparr>)))"

definition bulkDeleteTasks ::
  "object_id list \<Rightarrow> object_id \<Rightarrow> (task list, 'e) world \<Rightarrow>
     (thrown + bulk_delete_result) \<times> (task list, 'e) world \<times> nat list" where
  "bulkDeleteTasks taskIds userId w =
     withRetryableTransaction (bulkDelete_operations taskIds userId) 3 w"

section \<open>Listing tasks (Task.getTasksByUser, schemas/task.schema.js, task.router.js)\<close>


datatype sort_direction = Asc | Desc


text \<open>
  The search term is escaped and compiled with the \<open>i\<close> flag, so it matches where it occurs
  as a substring, letters compared without case (ASCII letters here; strings are bytes).
\<close>

definition lower_char :: "char \<Rightarrow> char" where
  "lower_char c = (if CHR ''A'' \<le> c \<and> c \<le> CHR ''Z'' then char_of (of_char c + (32::nat)) else c)"

primrec has_infix :: "string \<Rightarrow> string \<Rightarrow> bool" where
  "has_infix needle [] = (needle = [])"
| "has_infix needle (c # cs) = (take (length needle) (c # cs) = needle \<or> has_infix needle cs)"

definition searchRegex_test :: "string \<Rightarrow> string \<Rightarrow> bool" where
  "searchRegex_test search s = has_infix (map lower_char search) (map lower_char s)"









record pagination =
  current :: js_number
  pages :: js_number
  total_count :: int
  limit :: int

record task_page =
  tasks :: "task list"
  pagination :: pagination










section \<open>Principals and the session validity check (User.model.js, user.service.js, auth.service.js)\<close>

record user_doc =
  user_id :: object_id
  username :: string
  email :: string
  password :: string
  isActive :: bool
  lastLogin :: "date option"
  passwordChangedAt :: "date option"

text \<open>
  \<open>parseInt(ms / 1000, 10)\<close> for an integral number of milliseconds: the quotient's integer
  part, truncated toward zero.
\<close>

definition parseInt_seconds :: "date \<Rightarrow> int" where
  "parseInt_seconds ms = (if ms < 0 then - ((- ms) div 1000) else ms div 1000)"

text \<open>\<open>jwtTimestamp\<close> is the token's \<open>iat\<close>, in seconds.\<close>

definition passwordChangedAfterJWT :: "user_doc \<Rightarrow> int \<Rightarrow> bool" where
  "passwordChangedAfterJWT u jwtTimestamp =
     (case passwordChangedAt u of
        Some changed \<Rightarrow> jwtTimestamp < parseInt_seconds changed
      | None \<Rightarrow> False)"

text \<open>
  The two \<open>userSchema.pre('save')\<close> hooks, in registration order. \<open>password_modified\<close> is
  \<open>this.isModified('password')\<close>, \<open>is_new\<close> is \<open>this.isNew\<close>; \<open>bcrypt_hash\<close> stands for
  \<open>bcrypt.hash\<close> with the configured cost, \<open>now\<close> for \<open>Date.now()\<close>.
\<close>

definition hash_password_hook :: "(string \<Rightarrow> string) \<Rightarrow> bool \<Rightarrow> user_doc \<Rightarrow> user_doc" where
  "hash_password_hook bcrypt_hash password_modified u =
     (if \<not> password_modified then u else u\<lparr>password := bcrypt_hash (password u)\<rparr>)"

definition passwordChangedAt_hook :: "date \<Rightarrow> bool \<Rightarrow> bool \<Rightarrow> user_doc \<Rightarrow> user_doc" where
  "passwordChangedAt_hook now password_modified is_new u =
     (if \<not> password_modified \<or> is_new then u else u\<lparr>passwordChangedAt := Some (now - 1000)\<rparr>)"

text \<open>\<open>user.save()\<close> of a user loaded as \<open>old\<close> and since assigned to.\<close>

definition save_user :: "(string \<Rightarrow> string) \<Rightarrow> date \<Rightarrow> user_doc \<Rightarrow> user_doc \<Rightarrow> user_doc" where
  "save_user bcrypt_hash now old u =
     (let password_modified = (password u \<noteq> password old)
      in passwordChangedAt_hook now password_modified False
           (hash_password_hook bcrypt_hash password_modified u))"

text \<open>
  The unit of work of \<open>authService.changePassword\<close>; \<open>bcrypt_compare candidate hashed\<close>
  stands for \<open>bcrypt.compare\<close>. It returns the \<open>passwordChangedAt\<close> of the saved user.
\<close>

definition changePassword_operations ::
  "(string \<Rightarrow> string \<Rightarrow> bool) \<Rightarrow> (string \<Rightarrow> string) \<Rightarrow> date \<Rightarrow> object_id \<Rightarrow> string \<Rightarrow> string \<Rightarrow>
     (user_doc list, 'e, date option) operations" where
  "changePassword_operations bcrypt_compare bcrypt_hash now userId currentPassword newPassword w =
     (case find (\<lambda>u. user_id u = userId) (db w) of
        None \<Rightarrow> (Inl (Error ''User not found''), w)
      | Some u \<Rightarrow>
          if \<not> bcrypt_compare currentPassword (password u)
          then (Inl (Error ''Current password is incorrect''), w)
          else if bcrypt_compare newPassword (password u)
          then (Inl (Error ''New password must be different from current password''), w)
          else (let saved = save_user bcrypt_hash now u
                              (u\<lparr>password := newPassword, passwordChangedAt := Some now\<rparr>)
                in (Inr (passwordChangedAt saved),
                    w\<lparr>db := map (\<lambda>d. if user_id d = user_id u then saved else d) (db w)\<rparr>)))"

definition changePassword ::
  "(string \<Rightarrow> string \<Rightarrow> bool) \<Rightarrow> (string \<Rightarrow> string) \<Rightarrow> date \<Rightarrow> object_id \<Rightarrow> string \<Rightarrow> string \<Rightarrow>
     (user_doc list, 'e) world \<Rightarrow> (thrown + date option) \<times> (user_doc list, 'e) world \<times> nat list" where
  "changePassword bcrypt_compare bcrypt_hash now userId currentPassword newPassword w =
     withRetryableTransaction
       (changePassword_operations bcrypt_compare bcrypt_hash now userId currentPassword newPassword)
       3 w"

section \<open>Example data\<close>

text \<open>
  Three tasks, two of alice and one of bob; alice is connected from two sessions, bob
  from one.
\<close>

definition taskA :: task where
  "taskA = \<lparr>task_id = ''A'', title = ''Renew Passport'', description = ''Book the consulate slot'',
     status = Pending, user = ''alice'', priority = Medium, dueDate = None, completedAt = None,
     tags = [''travel''], createdAt = 1000, updatedAt = 1000\<rparr>"

definition taskB :: task where
  "taskB = \<lparr>task_id = ''B'', title = ''File taxes'', description = ''Before the deadline'',
     status = InProgress, user = ''alice'', priority = High, dueDate = Some 9000, completedAt = None,
     tags = [], createdAt = 1100, updatedAt = 1200\<rparr>"

definition taskC :: task where
  "taskC = \<lparr>task_id = ''C'', title = ''Water plants'', description = ''Balcony'',
     status = Pending, user = ''bob'', priority = Low, dueDate = None, completedAt = None,
     tags = [], createdAt = 1300, updatedAt = 1300\<rparr>"

definition two_sessions :: ws_state where
  "two_sessions = on_connection ''s3'' ''bob'' (on_connection ''s2'' ''alice''
     (on_connection ''s1'' ''alice'' \<lparr>sockets = [], emitted = [], received = []\<rparr>))"

definition example_world :: svc where
  "example_world = \<lparr>db = [taskA, taskB, taskC], env = two_sessions, txn_window = 5\<rparr>"

definition mark_completed :: update_data where
  "mark_completed = no_update\<lparr>u_status := Some Completed\<rparr>"




text \<open>A principal and stand-ins for bcrypt, for concrete runs.\<close>

definition toy_hash :: "string \<Rightarrow> string" where
  "toy_hash pw = ''$2a$12$'' @ rev pw"

definition toy_compare :: "string \<Rightarrow> string \<Rightarrow> bool" where
  "toy_compare candidate hashed = (toy_hash candidate = hashed)"

definition alice :: user_doc where
  "alice = \<lparr>user_id = ''alice'', username = ''alice'', email = ''alice@example.org'',
     password = toy_hash ''old-secret'', isActive = True, lastLogin = None,
     passwordChangedAt = Some 5000\<rparr>"

section \<open>Properties of the retry executor\<close>

lemma world_after_Suc:
  "world_after operations (Suc n) w = world_after operations n (snd (withTransaction operations w))"
  unfolding world_after_def by (simp only: funpow_Suc_right o_apply)

lemma attempt_outcome_Suc:
  "attempt_outcome operations (Suc n) w = attempt_outcome operations n (snd (withTransaction operations w))"
  by (simp add: attempt_outcome_def world_after_Suc)

lemma backoff_delays_Suc: "backoff_delays a (Suc k) = (2 ^ a * 100) # backoff_delays (Suc a) k"
  by (simp add: backoff_delays_def upt_rec)

lemma retry_loop_success:
  assumes "a + k \<le> N"
    and "\<forall>i<k. attempt_outcome operations i w = Inl (errs i) \<and> isRetryableError (errs i)"
    and "attempt_outcome operations k w = Inr r"
  shows "retry_loop operations N a lastError w sleeps =
           (Inr r, world_after operations (Suc k) w, sleeps @ backoff_delays a k)"
  using assms
proof (induction k arbitrary: a w sleeps lastError errs)
  case 0
  then have "fst (withTransaction operations w) = Inr r"
    by (simp add: attempt_outcome_def world_after_def)
  with 0 show ?case
    by (subst retry_loop.simps)
       (auto simp: world_after_def backoff_delays_def split: prod.splits sum.splits)
next
  case (Suc k)
  obtain w' where step: "withTransaction operations w = (Inl (errs 0), w')"
    using Suc.prems(2) by (cases "withTransaction operations w")
      (auto simp: attempt_outcome_def world_after_def)
  have retry: "isRetryableError (errs 0)"
    using Suc.prems(2) by auto
  have rest: "\<forall>i<k. attempt_outcome operations i w' = Inl (errs (Suc i)) \<and> isRetryableError (errs (Suc i))"
    using Suc.prems(2) step by (auto simp: attempt_outcome_Suc)
  have last: "attempt_outcome operations k w' = Inr r"
    using Suc.prems(3) step by (simp add: attempt_outcome_Suc)
  have "retry_loop operations N (a + 1) (Thrown (errs 0)) w' (sleeps @ [2 ^ a * 100]) =
          (Inr r, world_after operations (Suc k) w', (sleeps @ [2 ^ a * 100]) @ backoff_delays (a + 1) k)"
    using Suc.prems(1) rest last by (intro Suc.IH) auto
  with step retry Suc.prems(1) show ?case
    by (subst retry_loop.simps) (simp add: world_after_Suc[of _ "Suc k"] backoff_delays_Suc)
qed

lemma retry_loop_exhausted:
  assumes "a + k = N"
    and "\<forall>i\<le>k. attempt_outcome operations i w = Inl (errs i) \<and> isRetryableError (errs i)"
  shows "retry_loop operations N a lastError w sleeps =
           (Inl (Thrown (errs k)), world_after operations (Suc k) w, sleeps @ backoff_delays a k)"
  using assms
proof (induction k arbitrary: a w sleeps lastError errs)
  case 0
  then obtain w' where "withTransaction operations w = (Inl (errs 0), w')"
    by (cases "withTransaction operations w") (auto simp: attempt_outcome_def world_after_def)
  with 0 show ?case
    by (subst retry_loop.simps) (auto simp: world_after_def backoff_delays_def)
next
  case (Suc k)
  obtain w' where step: "withTransaction operations w = (Inl (errs 0), w')"
    using Suc.prems(2) by (cases "withTransaction operations w")
      (auto simp: attempt_outcome_def world_after_def)
  have retry: "isRetryableError (errs 0)"
    using Suc.prems(2) by auto
  have rest: "\<forall>i\<le>k. attempt_outcome operations i w' = Inl (errs (Suc i)) \<and> isRetryableError (errs (Suc i))"
    using Suc.prems(2) step by (auto simp: attempt_outcome_Suc)
  have "retry_loop operations N (a + 1) (Thrown (errs 0)) w' (sleeps @ [2 ^ a * 100]) =
          (Inl (Thrown (errs (Suc k))), world_after operations (Suc k) w',
           (sleeps @ [2 ^ a * 100]) @ backoff_delays (a + 1) k)"
    using Suc.prems(1) rest by (intro Suc.IH[where errs = "\<lambda>i. errs (Suc i)"]) auto
  with step retry Suc.prems(1) show ?case
    by (subst retry_loop.simps) (simp add: world_after_Suc[of _ "Suc k"] backoff_delays_Suc)
qed

lemma retry_loop_terminal:
  assumes "withTransaction operations w = (Inl err, w')" and "\<not> isRetryableError err"
    and "a \<le> N"
  shows "retry_loop operations N a lastError w sleeps = (Inl (Thrown err), w', sleeps)"
  using assms by (subst retry_loop.simps) simp

lemma isRetryableError_Error: "\<not> isRetryableError (Error msg)"
  by (simp add: isRetryableError_def Error_def retryableLabels_def)

lemma driver_ignores_Error: "\<not> driver_reruns_on (Error msg)"
  by (simp add: driver_reruns_on_def Error_def)

text \<open>
  The \<open>ValidationError\<close> of \<open>save()\<close> is such a plain error to the executor and the driver:
  no code, no label, not a \<open>MongoError\<close>.
\<close>

lemma ValidationError_plain:
  "ValidationError failed = Error (''Task validation failed: '' @ join_issues failed)"
  by (simp add: ValidationError_def Error_def)

text \<open>One call of \<open>withTransaction\<close> whose first run settles it.\<close>

lemma withTransaction_rethrows:
  assumes "operations w = (Inl err, w')" and "\<not> driver_reruns_on err"
  shows "withTransaction operations w = (Inl err, w'\<lparr>db := db w\<rparr>)"
  using assms unfolding withTransaction_def by (cases "txn_window w") simp_all

lemma withTransaction_returns:
  assumes "operations w = (Inr r, w')"
  shows "withTransaction operations w = (Inr r, w')"
  using assms unfolding withTransaction_def by (cases "txn_window w") simp_all

lemma first_attempt_succeeds:
  assumes "operations w = (Inr r, w')" and "1 \<le> N"
  shows "withRetryableTransaction operations N w = (Inr r, w', [])"
  unfolding withRetryableTransaction_def
  using assms by (subst retry_loop.simps) (simp add: withTransaction_returns)

text \<open>The scripted unit of work, run by run.\<close>

lemma scripted_rerun:
  assumes "driver_reruns_on e"
  shows "transaction_loop (Suc m) scripted (script_world n (Inl e # xs)) =
           transaction_loop m scripted (script_world n xs)"
  using assms by (simp add: scripted_def script_world_def)

lemma scripted_settles:
  assumes "case x of Inl e \<Rightarrow> \<not> driver_reruns_on e | Inr r \<Rightarrow> True"
  shows "transaction_loop m scripted (script_world n (x # xs)) = (x, script_world n xs)"
  using assms by (cases x; cases m) (simp_all add: scripted_def script_world_def)

lemma scripted_step:
  assumes "case x of Inl e \<Rightarrow> \<not> driver_reruns_on e | Inr r \<Rightarrow> True"
  shows "withTransaction scripted (script_world n (x # xs)) = (x, script_world n xs)"
  unfolding withTransaction_def using scripted_settles[OF assms] by simp

lemma retryable_duplicateKey: "isRetryableError duplicateKey"
  by (simp add: isRetryableError_def duplicateKey_def retryableErrorCodes_def)

lemma driver_ignores_duplicateKey: "\<not> driver_reruns_on duplicateKey"
  by (simp add: driver_reruns_on_def duplicateKey_def)

lemma driver_reruns_writeConflict: "driver_reruns_on writeConflict"
  by (simp add: driver_reruns_on_def writeConflict_def)

text \<open>
  Claim C3, as stated, fails on the code: \<open>isRetryableError\<close> lists code 11000
  (DuplicateKey) among the retryable codes, so a unit of work that fails with a duplicate-key
  error (which the driver does not run again by itself) is run again by the executor after
  a 200 ms wait instead of propagating on first occurrence.
\<close>

theorem duplicate_key_is_retried:
  "isRetryableError duplicateKey \<and>
   withRetryableTransaction scripted 3 (script_world 5 [Inl duplicateKey, Inr ''saved'']) =
     (Inr ''saved'', script_world 5 [], [200])"
  by (simp add: withRetryableTransaction_def retry_loop.simps scripted_step retryable_duplicateKey
      driver_ignores_duplicateKey)

text \<open>
  Claim C3, amended: a business-rule failure raised as a plain \<open>new Error(msg)\<close>, which is
  how the services raise duplicate (found by lookup), not-found, access-denied and
  already-completed failures (and what the \<open>ValidationError\<close> of \<open>save()\<close> amounts to, see
  \<open>ValidationError_plain\<close>), is neither classified as retryable nor run again by the
  driver: the unit of work is run once and its error propagates to the caller on that first
  occurrence, with no retry and no wait (the world is the one the single run left, the
  transaction's writes discarded). An error of the driver does not qualify: it is run
  again by the executor when its code is listed (11000 above), and by the driver itself
  when it is labelled \<open>TransientTransactionError\<close>.
\<close>

theorem terminal_errors_propagate_without_retry:
  assumes "operations w = (Inl (Error msg), w')"
    and "1 \<le> maxRetries"
  shows "withRetryableTransaction operations maxRetries w =
           (Inl (Thrown (Error msg)), w'\<lparr>db := db w\<rparr>, []) \<and>
         \<not> isRetryableError (Error msg) \<and> \<not> driver_reruns_on (Error msg)"
proof -
  have "withTransaction operations w = (Inl (Error msg), w'\<lparr>db := db w\<rparr>)"
    using assms(1) driver_ignores_Error by (rule withTransaction_rethrows)
  then have "retry_loop operations maxRetries 1 Undefined w [] =
      (Inl (Thrown (Error msg)), w'\<lparr>db := db w\<rparr>, [])"
    using isRetryableError_Error assms(2) by (rule retry_loop_terminal)
  then show ?thesis
    by (simp add: withRetryableTransaction_def isRetryableError_Error driver_ignores_Error)
qed

text \<open>
  The amended C3 at a concrete unit of work: 'Task not found' on the first run of an
  executor with three attempts; the second scripted outcome is never consumed.
\<close>

theorem terminal_errors_propagate_without_retry_witness:
  "withRetryableTransaction scripted 3
     (script_world 5 [Inl (Error ''Task not found''), Inr ''never reached'']) =
     (Inl (Thrown (Error ''Task not found'')), script_world 5 [Inr ''never reached''], []) \<and>
   \<not> isRetryableError (Error ''Task not found'') \<and>
   \<not> driver_reruns_on (Error ''Task not found'')"
proof -
  have run: "scripted (script_world 5 [Inl (Error ''Task not found''), Inr ''never reached'']) =
      (Inl (Error ''Task not found''), script_world 5 [Inr ''never reached''])"
    by (simp add: scripted_def script_world_def)
  have three: "(1::nat) \<le> 3" by simp
  show ?thesis
    using terminal_errors_propagate_without_retry
      [where operations = scripted and msg = "''Task not found''"
         and w = "script_world 5 [Inl (Error ''Task not found''), Inr ''never reached'']"
         and w' = "script_world 5 [Inr ''never reached'']" and maxRetries = 3, OF run three]
    by (simp add: script_world_def)
qed

text \<open>
  Claim C4, as stated, fails on the code: when all three attempts fail retryably the
  executor rethrows the unit of work's own last error (here the duplicate-key error object,
  code 11000, unchanged), not a distinct "transaction exhausted" failure that carries it.
\<close>

theorem exhaustion_rethrows_last_error:
  "withRetryableTransaction scripted 3
     (script_world 5 [Inl duplicateKey, Inl duplicateKey, Inl duplicateKey]) =
     (Inl (Thrown duplicateKey), script_world 5 [], [200, 400]) \<and>
   code duplicateKey = Some 11000"
  by (simp add: withRetryableTransaction_def retry_loop.simps scripted_step retryable_duplicateKey
      driver_ignores_duplicateKey)
     (simp add: duplicateKey_def)

text \<open>
  Claim C4, amended: an attempt is one call of \<open>withTransaction\<close> (inside it the driver may
  itself run the unit of work again, while it fails with a driver error labelled
  \<open>TransientTransactionError\<close> and the driver's time window is open). Under maximum attempts
  \<open>N\<close>, if the first \<open>k < N\<close> attempts fail with errors that \<open>isRetryableError\<close> accepts, then
  (a) if attempt \<open>k + 1\<close> succeeds the caller receives its result after exactly \<open>k\<close> retries,
  and (b) if attempt \<open>k + 1 = N\<close> fails retryably too, the caller receives that last
  underlying error itself. In both cases the waits between attempts are
  \<open>100 * 2 ^ attempt\<close> milliseconds for \<open>attempt = 1, ..., k\<close>.
\<close>

theorem retry_until_success_or_last_error:
  assumes "k < N"
    and "\<forall>i<k. attempt_outcome operations i w = Inl (errs i) \<and> isRetryableError (errs i)"
  shows "(attempt_outcome operations k w = Inr r \<longrightarrow>
            withRetryableTransaction operations N w =
              (Inr r, world_after operations (Suc k) w, backoff_delays 1 k)) \<and>
         (Suc k = N \<and> attempt_outcome operations k w = Inl e \<and> isRetryableError e \<longrightarrow>
            withRetryableTransaction operations N w =
              (Inl (Thrown e), world_after operations N w, backoff_delays 1 k))"
proof (intro conjI impI)
  assume "attempt_outcome operations k w = Inr r"
  with assms show "withRetryableTransaction operations N w =
      (Inr r, world_after operations (Suc k) w, backoff_delays 1 k)"
    unfolding withRetryableTransaction_def
    using retry_loop_success[of 1 k N operations w errs r Undefined "[]"] by simp
next
  assume last: "Suc k = N \<and> attempt_outcome operations k w = Inl e \<and> isRetryableError e"
  define errs' where "errs' = errs(k := e)"
  have "1 + k = N" using last by simp
  moreover have "\<forall>i\<le>k. attempt_outcome operations i w = Inl (errs' i) \<and> isRetryableError (errs' i)"
    using assms(2) last by (auto simp: errs'_def le_less)
  ultimately have "retry_loop operations N 1 Undefined w [] =
      (Inl (Thrown (errs' k)), world_after operations (Suc k) w, [] @ backoff_delays 1 k)"
    by (rule retry_loop_exhausted)
  with last show "withRetryableTransaction operations N w =
      (Inl (Thrown e), world_after operations N w, backoff_delays 1 k)"
    by (auto simp: withRetryableTransaction_def errs'_def)
qed

lemma scripted_world_after_Suc:
  assumes "case x of Inl e \<Rightarrow> \<not> driver_reruns_on e | Inr r \<Rightarrow> True"
  shows "world_after scripted (Suc m) (script_world n (x # xs)) =
           world_after scripted m (script_world n xs)"
  by (simp add: world_after_Suc scripted_step[OF assms])

lemma scripted_attempt_Suc:
  assumes "case x of Inl e \<Rightarrow> \<not> driver_reruns_on e | Inr r \<Rightarrow> True"
  shows "attempt_outcome scripted (Suc m) (script_world n (x # xs)) =
           attempt_outcome scripted m (script_world n xs)"
  by (simp add: attempt_outcome_Suc scripted_step[OF assms])

lemma scripted_attempt_0:
  assumes "case x of Inl e \<Rightarrow> \<not> driver_reruns_on e | Inr r \<Rightarrow> True"
  shows "attempt_outcome scripted 0 (script_world n (x # xs)) = x"
  by (simp add: attempt_outcome_def world_after_def scripted_step[OF assms])

lemma world_after_0: "world_after operations 0 w = w"
  by (simp add: world_after_def)

text \<open>
  The amended C4 at concrete units of work with three attempts. Duplicate-key failures on
  attempts 1 and 2 and success on attempt 3 return the result after two retries (waits of
  200 and 400 ms); three duplicate-key failures surface the third error. Two write
  conflicts labelled transient and then success are settled by the driver inside the first
  attempt: the result comes back with no retry and no wait of the executor.
\<close>

theorem retry_until_success_or_last_error_witness:
  "withRetryableTransaction scripted 3
     (script_world 5 [Inl duplicateKey, Inl duplicateKey, Inr ''done'']) =
     (Inr ''done'', script_world 5 [], [200, 400]) \<and>
   withRetryableTransaction scripted 3
     (script_world 5 [Inl duplicateKey, Inl duplicateKey, Inl duplicateKey]) =
     (Inl (Thrown duplicateKey), script_world 5 [], [200, 400]) \<and>
   withRetryableTransaction scripted 3
     (script_world 5 [Inl writeConflict, Inl writeConflict, Inr ''done'']) =
     (Inr ''done'', script_world 5 [], [])"
proof -
  let ?ok = "script_world 5 [Inl duplicateKey, Inl duplicateKey, Inr ''done'']"
  let ?bad = "script_world 5 [Inl duplicateKey, Inl duplicateKey, Inl duplicateKey]"
  let ?driver = "script_world 5 [Inl writeConflict, Inl writeConflict, Inr ''done'']"
  note steps = scripted_attempt_0 scripted_attempt_Suc scripted_world_after_Suc world_after_0
    driver_ignores_duplicateKey retryable_duplicateKey
  have two: "(\<forall>i<2::nat. P i) = (P 0 \<and> P (Suc 0))" for P
    by (auto simp: less_2_cases_iff)
  have d: "backoff_delays 1 2 = [200, 400]" "backoff_delays 1 0 = []"
    by (simp_all add: backoff_delays_def upt_rec)
  have lt: "(2::nat) < 3" "(0::nat) < 3" by simp_all
  have ok_fail: "\<forall>i<2. attempt_outcome scripted i ?ok = Inl duplicateKey \<and>
      isRetryableError duplicateKey"
    by (simp add: two steps)
  have ok_last: "attempt_outcome scripted 2 ?ok = Inr ''done''"
    by (simp add: numeral_2_eq_2 steps)
  have ok_world: "world_after scripted (Suc 2) ?ok = script_world 5 []"
    by (simp add: numeral_2_eq_2 steps)
  have bad_fail: "\<forall>i<2. attempt_outcome scripted i ?bad = Inl duplicateKey \<and>
      isRetryableError duplicateKey"
    by (simp add: two steps)
  have bad_last: "attempt_outcome scripted 2 ?bad = Inl duplicateKey"
    by (simp add: numeral_2_eq_2 steps)
  have bad_world: "world_after scripted 3 ?bad = script_world 5 []"
    by (simp add: numeral_3_eq_3 steps)
  have window: "txn_window ?driver = Suc (Suc 3)"
    by (simp add: script_world_def)
  have "transaction_loop (Suc (Suc 3)) scripted ?driver =
      transaction_loop 3 scripted (script_world 5 [Inr ''done''])"
    by (simp only: scripted_rerun[OF driver_reruns_writeConflict])
  also have "\<dots> = (Inr ''done'', script_world 5 [])"
    by (rule scripted_settles) simp
  finally have driver_run: "withTransaction scripted ?driver = (Inr ''done'', script_world 5 [])"
    by (simp only: withTransaction_def window)
  have driver_none: "\<forall>i<0. attempt_outcome scripted i ?driver = Inl duplicateKey \<and>
      isRetryableError duplicateKey"
    by simp
  have driver_last: "attempt_outcome scripted 0 ?driver = Inr ''done''"
    by (simp add: attempt_outcome_def world_after_0 driver_run)
  have driver_world: "world_after scripted (Suc 0) ?driver = script_world 5 []"
    by (simp add: world_after_Suc world_after_0 driver_run)
  have a: "withRetryableTransaction scripted 3 ?ok = (Inr ''done'', script_world 5 [], [200, 400])"
    using retry_until_success_or_last_error
      [of 2 3 scripted ?ok "\<lambda>i. duplicateKey" "''done''", OF lt(1) ok_fail] ok_last ok_world d
    by simp
  have b: "withRetryableTransaction scripted 3 ?bad =
      (Inl (Thrown duplicateKey), script_world 5 [], [200, 400])"
    using retry_until_success_or_last_error
      [of 2 3 scripted ?bad "\<lambda>i. duplicateKey" _ duplicateKey, OF lt(1) bad_fail]
      bad_last bad_world d retryable_duplicateKey
    by simp
  have c: "withRetryableTransaction scripted 3 ?driver = (Inr ''done'', script_world 5 [], [])"
    using retry_until_success_or_last_error
      [of 0 3 scripted ?driver "\<lambda>i. duplicateKey" "''done''", OF lt(2) driver_none]
      driver_last driver_world d
    by simp
  from a b c show ?thesis by simp
qed

section \<open>Properties of the task service\<close>

text \<open>
  Ids stay unique: every operation of the service maps a collection with unique \<open>_id\<close>s
  to one with unique \<open>_id\<close>s, so the uniqueness assumed of the collection below holds in
  every state the service reaches from an empty collection.
\<close>

lemma task_id_assign_fields: "task_id (assign_fields u t) = task_id t"
  by (simp add: assign_fields_def)

lemma task_id_pre_save: "task_id (pre_save m now t) = task_id t"
  by (simp add: pre_save_def)

lemma ids_replaced:
  "task_id saved = i \<Longrightarrow>
   map task_id (map (\<lambda>d. if task_id d = i then saved else d) store) = map task_id store"
  by (induction store) simp_all

lemma ids_save_existing:
  assumes "save_existing now old t store = Inr (saved, store')" and "task_id t = task_id old"
  shows "map task_id store' = map task_id store"
proof -
  from assms have "store' = map (\<lambda>d. if task_id d = task_id old then saved else d) store"
    and "task_id saved = task_id old"
    by (auto simp: save_existing_def Let_def task_id_pre_save split: if_splits)
  then show ?thesis by (simp add: ids_replaced)
qed

lemma distinct_findByIdAndDelete:
  "distinct (map task_id store) \<Longrightarrow> distinct (map task_id (findByIdAndDelete taskId store))"
proof (induction store)
  case Nil
  then show ?case by simp
next
  case (Cons a store)
  have "set (findByIdAndDelete taskId xs) \<subseteq> set xs" for xs
    by (induction xs) auto
  with Cons show ?case by (auto simp: image_iff)
qed

lemma findById_task_id: "findById taskId store = Some t \<Longrightarrow> task_id t = taskId"
  unfolding findById_def by (induction store) (auto split: if_splits)

lemma unique_ids_preserved:
  assumes "distinct (map task_id (db w))"
  shows "distinct (map task_id (db (snd (createTask oid now taskData userId w))))"
    and "distinct (map task_id (db (snd (updateTask now taskId updateData userId w))))"
    and "distinct (map task_id (db (snd (deleteTask taskId userId w))))"
    and "distinct (map task_id (db (snd (markTaskAsCompleted now taskId userId w))))"
    and "distinct (map task_id (db (snd (bulkUpdate_operations now taskIds updateData userId w))))"
    and "distinct (map task_id (db (snd (bulkDelete_operations taskIds userId w))))"
proof -
  show "distinct (map task_id (db (snd (createTask oid now taskData userId w))))"
    using assms
    by (auto simp: createTask_def save_new_def Let_def task_id_pre_save image_iff split: if_splits)
  show "distinct (map task_id (db (snd (updateTask now taskId updateData userId w))))"
  proof -
    have "db (snd (updateTask now taskId updateData userId w)) = db w \<or>
        (\<exists>t saved. save_existing now t (assign_fields updateData t) (db w) =
           Inr (saved, db (snd (updateTask now taskId updateData userId w))))"
      by (auto simp: updateTask_def split: option.splits sum.splits)
    then show ?thesis
      using assms ids_save_existing[OF _ task_id_assign_fields] by metis
  qed
  show "distinct (map task_id (db (snd (deleteTask taskId userId w))))"
    using assms distinct_findByIdAndDelete
    by (auto simp: deleteTask_def split: option.splits)
  show "distinct (map task_id (db (snd (markTaskAsCompleted now taskId userId w))))"
  proof -
    have same: "task_id (t\<lparr>status := Completed, completedAt := Some now\<rparr>) = task_id t" for t
      by simp
    have "db (snd (markTaskAsCompleted now taskId userId w)) = db w \<or>
        (\<exists>t saved. save_existing now t (t\<lparr>status := Completed, completedAt := Some now\<rparr>) (db w) =
           Inr (saved, db (snd (markTaskAsCompleted now taskId userId w))))"
      by (auto simp: markTaskAsCompleted_def markAsCompleted_def split: option.splits sum.splits)
    then show ?thesis
      using assms ids_save_existing[OF _ same] by metis
  qed
  have upd: "map task_id (map (\<lambda>t. if q t then (assign_fields updateData t)\<lparr>updatedAt := now\<rparr> else t) store) =
      map task_id store" for q store
    by (induction store) (simp_all add: task_id_assign_fields)
  show "distinct (map task_id (db (snd (bulkUpdate_operations now taskIds updateData userId w))))"
  proof (cases "length (Task_find (\<lambda>t. task_id t \<in> set taskIds \<and> user t = userId) (db w)) =
      length taskIds")
    case True
    then have e: "db (snd (bulkUpdate_operations now taskIds updateData userId w)) =
        map (\<lambda>t. if task_id t \<in> set taskIds \<and> user t = userId
                 then (assign_fields updateData t)\<lparr>updatedAt := now\<rparr> else t) (db w)"
      by (simp add: bulkUpdate_operations_def updateMany_def Let_def)
    show ?thesis unfolding e upd by (rule assms)
  next
    case False
    with assms show ?thesis by (simp add: bulkUpdate_operations_def Let_def)
  qed
  show "distinct (map task_id (db (snd (bulkDelete_operations taskIds userId w))))"
    using assms by (simp add: bulkDelete_operations_def deleteMany_def Let_def distinct_map_filter)
qed

lemma findById_distinct:
  assumes "distinct (map task_id store)" and "t \<in> set store"
  shows "findById (task_id t) store = Some t"
  using assms unfolding findById_def
proof (induction store)
  case Nil
  then show ?case by simp
next
  case (Cons a store)
  show ?case
  proof (cases "a = t")
    case True
    then show ?thesis by simp
  next
    case False
    with Cons.prems have "t \<in> set store" and "task_id a \<noteq> task_id t"
      by (auto simp: image_iff)
    with Cons show ?thesis by simp
  qed
qed

lemma findById_absent:
  "taskId \<notin> set (map task_id store) \<Longrightarrow> findById taskId store = None"
  unfolding findById_def by (induction store) auto

text \<open>
  With unique \<open>_id\<close>s, the ownership pre-filter finds one document per distinct requested
  id that exists and belongs to the caller.
\<close>

lemma found_le_card:
  assumes "distinct (map task_id store)"
  shows "length (Task_find (\<lambda>t. task_id t \<in> set ids \<and> user t = uid) store)
           = card {i \<in> set ids. \<exists>t \<in> set store. task_id t = i \<and> user t = uid}"
proof -
  let ?found = "filter (\<lambda>t. task_id t \<in> set ids \<and> user t = uid) store"
  have d: "distinct (map task_id ?found)"
    using assms by (simp add: distinct_map_filter)
  have "card (set (map task_id ?found)) = length (map task_id ?found)"
    using d by (rule distinct_card)
  then have "length ?found = card (task_id ` set ?found)"
    by simp
  also have "task_id ` set ?found = {i \<in> set ids. \<exists>t \<in> set store. task_id t = i \<and> user t = uid}"
    by (auto simp: image_iff)
  finally show ?thesis by (simp only: Task_find_def)
qed

lemma found_short_if_missing:
  assumes "distinct (map task_id store)"
    and "i \<in> set ids" and "\<not> (\<exists>t \<in> set store. task_id t = i \<and> user t = uid)"
  shows "length (Task_find (\<lambda>t. task_id t \<in> set ids \<and> user t = uid) store) < length ids"
proof -
  have "{i \<in> set ids. \<exists>t \<in> set store. task_id t = i \<and> user t = uid} \<subset> set ids"
    using assms(2,3) by auto
  then have "card {i \<in> set ids. \<exists>t \<in> set store. task_id t = i \<and> user t = uid} < card (set ids)"
    by (simp add: psubset_card_mono)
  also have "\<dots> \<le> length ids" by (rule card_length)
  finally show ?thesis using found_le_card[OF assms(1)] by simp
qed

lemma found_short_if_repeated:
  assumes "distinct (map task_id store)" and "\<not> distinct ids"
  shows "length (Task_find (\<lambda>t. task_id t \<in> set ids \<and> user t = uid) store) < length ids"
proof -
  have "card {i \<in> set ids. \<exists>t \<in> set store. task_id t = i \<and> user t = uid} \<le> card (set ids)"
    by (intro card_mono) auto
  also have "card (set ids) < length ids"
    using assms(2) card_distinct card_length le_neq_implies_less by blast
  finally show ?thesis using found_le_card[OF assms(1)] by simp
qed

lemma bulk_rejected:
  assumes "length (Task_find (\<lambda>t. task_id t \<in> set ids \<and> user t = uid) (db w)) < length ids"
  shows "bulkUpdateTasks now ids updateData uid w =
           (Inl (Thrown (Error ''Some tasks not found or access denied'')), w, [])"
    and "bulkDeleteTasks ids uid w =
           (Inl (Thrown (Error ''Some tasks not found or access denied'')), w, [])"
proof -
  have "bulkUpdate_operations now ids updateData uid w =
             (Inl (Error ''Some tasks not found or access denied''), w)"
    using assms by (simp add: bulkUpdate_operations_def Let_def)
  from withTransaction_rethrows
    [where operations = "bulkUpdate_operations now ids updateData uid" and w = w and w' = w,
     OF this driver_ignores_Error]
  have u: "withTransaction (bulkUpdate_operations now ids updateData uid) w =
             (Inl (Error ''Some tasks not found or access denied''), w)"
    by simp
  have "bulkDelete_operations ids uid w =
             (Inl (Error ''Some tasks not found or access denied''), w)"
    using assms by (simp add: bulkDelete_operations_def Let_def)
  from withTransaction_rethrows
    [where operations = "bulkDelete_operations ids uid" and w = w and w' = w,
     OF this driver_ignores_Error]
  have d: "withTransaction (bulkDelete_operations ids uid) w =
             (Inl (Error ''Some tasks not found or access denied''), w)"
    by simp
  show "bulkUpdateTasks now ids updateData uid w =
           (Inl (Thrown (Error ''Some tasks not found or access denied'')), w, [])"
    unfolding bulkUpdateTasks_def withRetryableTransaction_def
    by (rule retry_loop_terminal[OF u isRetryableError_Error]) simp
  show "bulkDeleteTasks ids uid w =
           (Inl (Thrown (Error ''Some tasks not found or access denied'')), w, [])"
    unfolding bulkDeleteTasks_def withRetryableTransaction_def
    by (rule retry_loop_terminal[OF d isRetryableError_Error]) simp
qed

text \<open>
  Claim C1: in a collection with unique ids, when some requested id \<open>i\<close> is absent or
  owned by another principal, \<open>bulkUpdateTasks\<close> and \<open>bulkDeleteTasks\<close> each fail with
  the single error 'Some tasks not found or access denied', on the first attempt (no
  retry), and the world is exactly the one before the call: no task is modified or deleted.
\<close>

theorem bulk_all_or_nothing:
  assumes "distinct (map task_id (db w))"
    and "i \<in> set ids"
    and "\<not> (\<exists>t \<in> set (db w). task_id t = i \<and> user t = ownerId)"
  shows "bulkUpdateTasks now ids updateData ownerId w =
           (Inl (Thrown (Error ''Some tasks not found or access denied'')), w, []) \<and>
         bulkDeleteTasks ids ownerId w =
           (Inl (Thrown (Error ''Some tasks not found or access denied'')), w, [])"
  using bulk_rejected[OF found_short_if_missing[OF assms]] by simp

text \<open>
  Claim C10: when the id list repeats an id, even though every listed id exists and is
  owned by the caller, both bulk operations fail with 'Some tasks not found or access
  denied' and leave the world unchanged: the documents found are counted per distinct id
  and compared with the raw length of the list.
\<close>

theorem bulk_repeated_id_rejected:
  assumes "distinct (map task_id (db w))"
    and "\<not> distinct ids"
    and "\<forall>i \<in> set ids. \<exists>t \<in> set (db w). task_id t = i \<and> user t = ownerId"
  shows "bulkUpdateTasks now ids updateData ownerId w =
           (Inl (Thrown (Error ''Some tasks not found or access denied'')), w, []) \<and>
         bulkDeleteTasks ids ownerId w =
           (Inl (Thrown (Error ''Some tasks not found or access denied'')), w, [])"
  using bulk_rejected[OF found_short_if_repeated[OF assms(1,2)]] by simp


text \<open>
  C1 at the specification's example: ids A, B, C where C belongs to bob, requested by alice.
\<close>

theorem bulk_all_or_nothing_witness:
  "bulkUpdateTasks 2000 [''A'', ''B'', ''C''] mark_completed ''alice'' example_world =
     (Inl (Thrown (Error ''Some tasks not found or access denied'')), example_world, []) \<and>
   bulkDeleteTasks [''A'', ''B'', ''C''] ''alice'' example_world =
     (Inl (Thrown (Error ''Some tasks not found or access denied'')), example_world, [])"
  using bulk_all_or_nothing
    [of example_world "''C''" "[''A'', ''B'', ''C'']" "''alice''" 2000 mark_completed]
  by (simp add: example_world_def taskA_def taskB_def taskC_def)

text \<open>
  C10 at a concrete request: alice asks for A, B, A, all hers.
\<close>

theorem bulk_repeated_id_rejected_witness:
  "bulkUpdateTasks 2000 [''A'', ''B'', ''A''] mark_completed ''alice'' example_world =
     (Inl (Thrown (Error ''Some tasks not found or access denied'')), example_world, []) \<and>
   bulkDeleteTasks [''A'', ''B'', ''A''] ''alice'' example_world =
     (Inl (Thrown (Error ''Some tasks not found or access denied'')), example_world, [])"
  using bulk_repeated_id_rejected
    [of example_world "[''A'', ''B'', ''A'']" "''alice''" 2000 mark_completed]
  by (simp add: example_world_def taskA_def taskB_def taskC_def)

text \<open>
  Claim C6: in a collection with unique ids, for a task \<open>T\<close> owned by someone other than
  the caller \<open>X\<close>, each of \<open>getTaskById\<close>, \<open>updateTask\<close>, \<open>deleteTask\<close> and
  \<open>markTaskAsCompleted\<close> fails with an 'Access denied' error; for an id no task has, each
  fails with 'Task not found'. In both cases the world (collection and published events)
  is left exactly as it was.
\<close>

theorem single_entity_isolation:
  assumes "distinct (map task_id (db w))"
  shows "(T \<in> set (db w) \<and> user T \<noteq> X \<longrightarrow>
            getTaskById (task_id T) X w =
              (Inl (Error ''Access denied: You can only access your own tasks''), w) \<and>
            updateTask now (task_id T) updateData X w =
              (Inl (Error ''Access denied: You can only update your own tasks''), w) \<and>
            deleteTask (task_id T) X w =
              (Inl (Error ''Access denied: You can only delete your own tasks''), w) \<and>
            markTaskAsCompleted now (task_id T) X w =
              (Inl (Error ''Access denied: You can only update your own tasks''), w)) \<and>
         (taskId \<notin> set (map task_id (db w)) \<longrightarrow>
            getTaskById taskId X w = (Inl (Error ''Task not found''), w) \<and>
            updateTask now taskId updateData X w = (Inl (Error ''Task not found''), w) \<and>
            deleteTask taskId X w = (Inl (Error ''Task not found''), w) \<and>
            markTaskAsCompleted now taskId X w = (Inl (Error ''Task not found''), w))"
proof (intro conjI impI)
  assume "T \<in> set (db w) \<and> user T \<noteq> X"
  then have f: "findById (task_id T) (db w) = Some T" and o: "\<not> isOwnedBy T X"
    using assms findById_distinct by (simp_all add: isOwnedBy_def)
  show "getTaskById (task_id T) X w =
      (Inl (Error ''Access denied: You can only access your own tasks''), w)"
    by (simp add: getTaskById_def f o)
  show "updateTask now (task_id T) updateData X w =
      (Inl (Error ''Access denied: You can only update your own tasks''), w)"
    by (simp add: updateTask_def f o)
  show "deleteTask (task_id T) X w =
      (Inl (Error ''Access denied: You can only delete your own tasks''), w)"
    by (simp add: deleteTask_def f o)
  show "markTaskAsCompleted now (task_id T) X w =
      (Inl (Error ''Access denied: You can only update your own tasks''), w)"
    by (simp add: markTaskAsCompleted_def f o)
next
  assume "taskId \<notin> set (map task_id (db w))"
  then have f: "findById taskId (db w) = None"
    by (rule findById_absent)
  show "getTaskById taskId X w = (Inl (Error ''Task not found''), w)"
    by (simp add: getTaskById_def f)
  show "updateTask now taskId updateData X w = (Inl (Error ''Task not found''), w)"
    by (simp add: updateTask_def f)
  show "deleteTask taskId X w = (Inl (Error ''Task not found''), w)"
    by (simp add: deleteTask_def f)
  show "markTaskAsCompleted now taskId X w = (Inl (Error ''Task not found''), w)"
    by (simp add: markTaskAsCompleted_def f)
qed

text \<open>
  C6 at concrete requests: bob on alice's task A, and bob on the absent id Z.
\<close>

theorem single_entity_isolation_witness:
  "getTaskById ''A'' ''bob'' example_world =
     (Inl (Error ''Access denied: You can only access your own tasks''), example_world) \<and>
   updateTask 2000 ''A'' mark_completed ''bob'' example_world =
     (Inl (Error ''Access denied: You can only update your own tasks''), example_world) \<and>
   deleteTask ''A'' ''bob'' example_world =
     (Inl (Error ''Access denied: You can only delete your own tasks''), example_world) \<and>
   markTaskAsCompleted 2000 ''A'' ''bob'' example_world =
     (Inl (Error ''Access denied: You can only update your own tasks''), example_world) \<and>
   getTaskById ''Z'' ''bob'' example_world = (Inl (Error ''Task not found''), example_world) \<and>
   updateTask 2000 ''Z'' mark_completed ''bob'' example_world =
     (Inl (Error ''Task not found''), example_world) \<and>
   deleteTask ''Z'' ''bob'' example_world = (Inl (Error ''Task not found''), example_world) \<and>
   markTaskAsCompleted 2000 ''Z'' ''bob'' example_world =
     (Inl (Error ''Task not found''), example_world)"
proof -
  have d: "distinct (map task_id (db example_world))"
    by (simp add: example_world_def taskA_def taskB_def taskC_def)
  have a: "taskA \<in> set (db example_world) \<and> user taskA \<noteq> ''bob''"
    by (simp add: example_world_def taskA_def)
  have z: "''Z'' \<notin> set (map task_id (db example_world))"
    by (simp add: example_world_def taskA_def taskB_def taskC_def)
  have i: "task_id taskA = ''A''"
    by (simp add: taskA_def)
  show ?thesis
    using single_entity_isolation[OF d, of taskA "''bob''" 2000 mark_completed "''Z''"] a z i
    by simp
qed





text \<open>
  The completion invariant on the document paths: \<open>createTask\<close> and
  \<open>markTaskAsCompleted\<close> establish it, \<open>updateTask\<close> preserves it when the update does not
  assign \<open>completedAt\<close> itself (the update schema has no such key).
\<close>

lemma pre_save_modified_invariant: "completion_invariant (pre_save True now t)"
  by (simp add: pre_save_def completion_invariant_def)

lemma createTask_completion_invariant:
  assumes "createTask oid now taskData userId w = (Inr t, w')"
  shows "completion_invariant t"
proof -
  have "completion_invariant ((pre_save True now t0)\<lparr>createdAt := c, updatedAt := u\<rparr>)" for t0 c u
    using pre_save_modified_invariant[of now t0] by (simp add: completion_invariant_def)
  with assms show ?thesis
    by (auto simp: createTask_def save_new_def Let_def split: if_splits)
qed

text \<open>
  The model schema is stricter than the request schema on tags (20 characters against
  50): a tag of 21 characters is refused by \<open>save()\<close>, and nothing is stored or published.
\<close>

lemma createTask_refuses_long_tag:
  "createTask ''D'' 2000
     \<lparr>d_title = ''Pack'', d_description = ''Two bags'', d_status = None, d_priority = None,
      d_dueDate = None, d_tags = Some [''twenty-one-characters'']\<rparr> ''alice'' example_world =
     (Inl (Error ''Task validation failed: tags.0: Tag must not exceed 20 characters''),
      example_world)"
proof -
  have zero: "count_text 0 = ''0''"
    by code_simp
  have "trim ''Pack'' = ''Pack''" "trim ''Two bags'' = ''Two bags''"
    "trim ''twenty-one-characters'' = ''twenty-one-characters''"
    by (simp_all add: trim_def is_space_def)
  then show ?thesis
    by (simp add: createTask_def save_new_def title_issues_def description_issues_def
        tags_issues_def zero ValidationError_def Error_def Let_def)
qed

lemma save_existing_completion_invariant:
  assumes "save_existing now old t store = Inr (saved, store')"
    and "completion_invariant old" and "completedAt t = completedAt old"
  shows "completion_invariant saved"
  using assms
  by (auto simp: save_existing_def pre_save_def completion_invariant_def Let_def
      split: if_splits)

lemma updateTask_completion_invariant:
  assumes "updateTask now taskId updateData userId w = (Inr t, w')"
    and "u_completedAt updateData = None"
    and "list_all completion_invariant (db w)"
  shows "completion_invariant t"
proof -
  obtain old where f: "findById taskId (db w) = Some old"
    using assms(1) by (auto simp: updateTask_def split: option.splits)
  then have "old \<in> set (db w)"
    unfolding findById_def by (auto simp: find_Some_iff)
  with assms(3) have inv: "completion_invariant old"
    by (simp add: list_all_iff)
  have c: "completedAt (assign_fields updateData old) = completedAt old"
    using assms(2) by (simp add: assign_fields_def)
  obtain store' where "save_existing now old (assign_fields updateData old) (db w) = Inr (t, store')"
    using assms(1) f by (auto simp: updateTask_def split: if_splits sum.splits)
  then show ?thesis using inv c by (rule save_existing_completion_invariant)
qed

lemma completing_changes_task:
  "status t \<noteq> Completed \<Longrightarrow> t\<lparr>status := Completed, completedAt := c\<rparr> \<noteq> t"
  by (metis task.select_convs(4) task.surjective task.update_convs(4,8))

lemma markTaskAsCompleted_completion_invariant:
  assumes "markTaskAsCompleted now taskId userId w = (Inr t, w')"
  shows "completion_invariant t"
  using assms completing_changes_task
  by (auto simp: markTaskAsCompleted_def markAsCompleted_def save_existing_def pre_save_def
      completion_invariant_def Let_def split: option.splits if_splits sum.splits)

lemma bulkUpdate_example:
  "bulkUpdateTasks 2000 [''A'', ''B''] mark_completed ''alice'' example_world =
     (Inr \<lparr>update_message = ''2 tasks updated successfully'', modifiedCount = 2,
           taskIds_echo = [''A'', ''B'']\<rparr>,
      \<lparr>db = [taskA\<lparr>status := Completed, updatedAt := 2000\<rparr>,
             taskB\<lparr>status := Completed, updatedAt := 2000\<rparr>, taskC],
       env = two_sessions, txn_window = 5\<rparr>,
      [])"
proof -
  have s: "count_text (Suc (Suc 0)) = ''2''"
    by code_simp
  have ops: "bulkUpdate_operations 2000 [''A'', ''B''] mark_completed ''alice'' example_world =
     (Inr \<lparr>update_message = ''2 tasks updated successfully'', modifiedCount = 2,
           taskIds_echo = [''A'', ''B'']\<rparr>,
      \<lparr>db = [taskA\<lparr>status := Completed, updatedAt := 2000\<rparr>,
             taskB\<lparr>status := Completed, updatedAt := 2000\<rparr>, taskC],
       env = two_sessions, txn_window = 5\<rparr>)"
    by (simp add: bulkUpdate_operations_def Task_find_def updateMany_def assign_fields_def
        example_world_def mark_completed_def no_update_def taskA_def taskB_def taskC_def s)
  show ?thesis
    unfolding bulkUpdateTasks_def by (rule first_attempt_succeeds) (simp_all add: ops)
qed

lemma bulkDelete_example:
  "bulkDeleteTasks [''A'', ''B''] ''alice'' example_world =
     (Inr \<lparr>delete_message = ''2 tasks deleted successfully'', deletedCount = 2,
           deletedTasks =
             [\<lparr>deleted_id = ''A'', deleted_title = ''Renew Passport'', deleted_status = Pending\<rparr>,
              \<lparr>deleted_id = ''B'', deleted_title = ''File taxes'', deleted_status = InProgress\<rparr>]\<rparr>,
      \<lparr>db = [taskC], env = two_sessions, txn_window = 5\<rparr>, [])"
proof -
  have s: "count_text (Suc (Suc 0)) = ''2''"
    by code_simp
  have ops: "bulkDelete_operations [''A'', ''B''] ''alice'' example_world =
     (Inr \<lparr>delete_message = ''2 tasks deleted successfully'', deletedCount = 2,
           deletedTasks =
             [\<lparr>deleted_id = ''A'', deleted_title = ''Renew Passport'', deleted_status = Pending\<rparr>,
              \<lparr>deleted_id = ''B'', deleted_title = ''File taxes'', deleted_status = InProgress\<rparr>]\<rparr>,
      \<lparr>db = [taskC], env = two_sessions, txn_window = 5\<rparr>)"
    by (simp add: bulkDelete_operations_def Task_find_def deleteMany_def
        example_world_def taskA_def taskB_def taskC_def s)
  show ?thesis
    unfolding bulkDeleteTasks_def by (rule first_attempt_succeeds) (simp_all add: ops)
qed

text \<open>
  Claim C2 holds on the document paths (the three lemmas above) and is broken by
  \<open>bulkUpdateTasks\<close>: \<open>updateMany\<close> does not run the \<open>pre('save')\<close> hook. Alice's tasks A
  (pending) and B (in progress) satisfy the invariant; after a successful bulk update with
  \<open>{status: 'completed'}\<close> the stored tasks are completed with \<open>completedAt\<close> still \<open>null\<close>.
\<close>

theorem bulkUpdate_skips_completedAt:
  "completion_invariant taskA \<and> completion_invariant taskB \<and>
   db (fst (snd (bulkUpdateTasks 2000 [''A'', ''B''] mark_completed ''alice'' example_world))) =
     [taskA\<lparr>status := Completed, updatedAt := 2000\<rparr>,
      taskB\<lparr>status := Completed, updatedAt := 2000\<rparr>, taskC] \<and>
   status (taskA\<lparr>status := Completed, updatedAt := 2000\<rparr>) = Completed \<and>
   completedAt (taskA\<lparr>status := Completed, updatedAt := 2000\<rparr>) = None \<and>
   \<not> completion_invariant (taskA\<lparr>status := Completed, updatedAt := 2000\<rparr>)"
  by (simp add: bulkUpdate_example) (simp add: completion_invariant_def taskA_def taskB_def)

text \<open>
  Claim C7 holds for the single-entity mutations (each ends in one \<open>emitTask...\<close> call; see
  \<open>deleteTask_publishes_once\<close> below) and is broken by the bulk operations: with alice
  connected from two sessions and bob from one, a successful \<open>bulkDeleteTasks\<close> and a
  successful \<open>bulkUpdateTasks\<close> of alice both leave the WebSocket service as it was, with
  nothing emitted and nothing received by any session.
\<close>

theorem bulk_operations_publish_nothing:
  "fst (bulkDeleteTasks [''A'', ''B''] ''alice'' example_world) =
     Inr \<lparr>delete_message = ''2 tasks deleted successfully'', deletedCount = 2,
          deletedTasks =
            [\<lparr>deleted_id = ''A'', deleted_title = ''Renew Passport'', deleted_status = Pending\<rparr>,
             \<lparr>deleted_id = ''B'', deleted_title = ''File taxes'', deleted_status = InProgress\<rparr>]\<rparr> \<and>
   env (fst (snd (bulkDeleteTasks [''A'', ''B''] ''alice'' example_world))) = two_sessions \<and>
   fst (bulkUpdateTasks 2000 [''A'', ''B''] mark_completed ''alice'' example_world) =
     Inr \<lparr>update_message = ''2 tasks updated successfully'', modifiedCount = 2,
          taskIds_echo = [''A'', ''B'']\<rparr> \<and>
   env (fst (snd (bulkUpdateTasks 2000 [''A'', ''B''] mark_completed ''alice'' example_world))) =
     two_sessions \<and>
   map socket_userId (sockets two_sessions) = [''alice'', ''alice'', ''bob''] \<and>
   emitted two_sessions = [] \<and> received two_sessions = []"
  by (simp add: bulkUpdate_example bulkDelete_example) (simp add: two_sessions_def on_connection_def)

text \<open>
  The single-entity sibling: \<open>deleteTask\<close> publishes one \<open>task_deleted\<close> event to alice's
  room, received by her two sessions and not by bob's.
\<close>

lemma deleteTask_publishes_once:
  "deleteTask ''A'' ''alice'' example_world =
     (Inr ''Task deleted successfully'',
      \<lparr>db = [taskB, taskC],
       env = two_sessions
         \<lparr>emitted := [\<lparr>room = ''user_alice'', event = ''task_deleted'', payload = TaskIdPayload ''A''\<rparr>],
          received :=
            [(''s1'', \<lparr>room = ''user_alice'', event = ''task_deleted'', payload = TaskIdPayload ''A''\<rparr>),
             (''s2'', \<lparr>room = ''user_alice'', event = ''task_deleted'', payload = TaskIdPayload ''A''\<rparr>)]\<rparr>,
       txn_window = 5\<rparr>)"
  by (simp add: deleteTask_def findById_def isOwnedBy_def emitTaskDeleted_def io_to_emit_def
      example_world_def taskA_def taskB_def taskC_def two_sessions_def on_connection_def
      user_room_def Let_def)

section \<open>Properties of listing\<close>

text \<open>The search is a case-insensitive substring match.\<close>

lemma search_example: "searchRegex_test ''passport'' ''Renew Passport''"
  by code_simp















section \<open>Properties of the session validity check\<close>

lemma parseInt_seconds_less:
  assumes "0 \<le> ms"
  shows "(T < parseInt_seconds ms) = ((T + 1) * 1000 \<le> ms)"
  using assms by (simp add: parseInt_seconds_def) linarith

text \<open>
  Claim C5, as stated, fails on the code: a password changed at 100.000 s is a change after
  \<open>T - 1 s\<close> for \<open>T = 100\<close>, yet the stored timestamp is backdated to 99.000 s and a token
  with \<open>iat = 100\<close> is not rejected.
\<close>

theorem backdated_change_is_accepted_at_T:
  "(100000::int) > (100 - 1) * 1000 \<and>
   passwordChangedAt (passwordChangedAt_hook 100000 True False alice) = Some 99000 \<and>
   \<not> passwordChangedAfterJWT (passwordChangedAt_hook 100000 True False alice) 100"
  by (simp add: passwordChangedAt_hook_def passwordChangedAfterJWT_def parseInt_seconds_def)

lemma find_replaced:
  assumes "find (\<lambda>d. user_id d = userId) store = Some u" and "user_id saved = userId"
  shows "find (\<lambda>d. user_id d = userId) (map (\<lambda>d. if user_id d = userId then saved else d) store) =
           Some saved"
  using assms by (induction store) (auto split: if_splits)

lemma find_user_id: "find (\<lambda>d. user_id d = userId) store = Some u \<Longrightarrow> user_id u = userId"
  by (induction store) (auto split: if_splits)

text \<open>
  Claim C5, amended: when \<open>changePassword\<close> succeeds at time \<open>now\<close> (milliseconds; the new
  password differing from the stored hash), the stored \<open>passwordChangedAt\<close> is
  \<open>now - 1000\<close>, and from then on a token with \<open>iat = T\<close> (seconds) is rejected exactly when
  \<open>T\<close> is below that timestamp in whole seconds, that is, exactly when the change happened at
  or after \<open>T + 2\<close> seconds. In general the check rejects a token iff the principal has a
  \<open>passwordChangedAt\<close> and \<open>iat\<close> is below it, truncated to seconds.
\<close>

theorem session_invalidation:
  assumes "find (\<lambda>d. user_id d = userId) (db w) = Some u"
    and "bcrypt_compare currentPassword (password u)"
    and "\<not> bcrypt_compare newPassword (password u)"
    and "newPassword \<noteq> password u"
    and "1000 \<le> now"
    and "saved = u\<lparr>password := bcrypt_hash newPassword, passwordChangedAt := Some (now - 1000)\<rparr>"
  shows "changePassword bcrypt_compare bcrypt_hash now userId currentPassword newPassword w =
           (Inr (Some (now - 1000)),
            w\<lparr>db := map (\<lambda>d. if user_id d = userId then saved else d) (db w)\<rparr>, []) \<and>
         find (\<lambda>d. user_id d = userId)
           (map (\<lambda>d. if user_id d = userId then saved else d) (db w)) = Some saved \<and>
         passwordChangedAfterJWT saved T = (T < (now - 1000) div 1000) \<and>
         passwordChangedAfterJWT saved T = ((T + 2) * 1000 \<le> now) \<and>
         passwordChangedAfterJWT v T =
           (\<exists>cca. passwordChangedAt v = Some cca \<and> T < parseInt_seconds cca)"
proof -
  have uid: "user_id u = userId"
    using assms(1) by (rule find_user_id)
  have sv: "save_user bcrypt_hash now u (u\<lparr>password := newPassword, passwordChangedAt := Some now\<rparr>) =
      saved"
    using assms(4) by (simp add: save_user_def hash_password_hook_def passwordChangedAt_hook_def assms(6))
  have ops: "changePassword_operations bcrypt_compare bcrypt_hash now userId currentPassword
      newPassword w =
      (Inr (Some (now - 1000)), w\<lparr>db := map (\<lambda>d. if user_id d = userId then saved else d) (db w)\<rparr>)"
    using assms(2,3) by (simp add: changePassword_operations_def assms(1) sv uid) (simp add: assms(6))
  have run: "changePassword bcrypt_compare bcrypt_hash now userId currentPassword newPassword w =
           (Inr (Some (now - 1000)),
            w\<lparr>db := map (\<lambda>d. if user_id d = userId then saved else d) (db w)\<rparr>, [])"
    unfolding changePassword_def by (rule first_attempt_succeeds) (simp_all add: ops)
  have fnd: "find (\<lambda>d. user_id d = userId)
           (map (\<lambda>d. if user_id d = userId then saved else d) (db w)) = Some saved"
    using assms(1) by (rule find_replaced) (simp add: assms(6) uid)
  have nn: "0 \<le> now - 1000" using assms(5) by simp
  have a: "passwordChangedAfterJWT saved T = (T < (now - 1000) div 1000)"
    using nn by (simp add: passwordChangedAfterJWT_def parseInt_seconds_def assms(6))
  have b: "passwordChangedAfterJWT saved T = ((T + 2) * 1000 \<le> now)"
    using parseInt_seconds_less[OF nn, of T]
    by (simp add: passwordChangedAfterJWT_def assms(6)) linarith
  have c: "passwordChangedAfterJWT v T =
           (\<exists>cca. passwordChangedAt v = Some cca \<and> T < parseInt_seconds cca)"
    by (simp add: passwordChangedAfterJWT_def split: option.splits)
  from run fnd a b c show ?thesis by blast
qed

text \<open>
  The amended C5 at a concrete change: alice changes her password at 100.000 s; a token
  issued at second 99 stays valid, one issued at second 98 is rejected, and a principal
  without \<open>passwordChangedAt\<close> rejects nothing.
\<close>

theorem session_invalidation_witness:
  "changePassword toy_compare toy_hash 100000 ''alice'' ''old-secret'' ''new-secret''
     \<lparr>db = [alice], env = (), txn_window = 5\<rparr> =
     (Inr (Some 99000),
      \<lparr>db = [alice\<lparr>password := toy_hash ''new-secret'', passwordChangedAt := Some 99000\<rparr>],
       env = (), txn_window = 5\<rparr>, []) \<and>
   \<not> passwordChangedAfterJWT
        (alice\<lparr>password := toy_hash ''new-secret'', passwordChangedAt := Some 99000\<rparr>) 99 \<and>
   passwordChangedAfterJWT
        (alice\<lparr>password := toy_hash ''new-secret'', passwordChangedAt := Some 99000\<rparr>) 98 \<and>
   \<not> passwordChangedAfterJWT (alice\<lparr>passwordChangedAt := None\<rparr>) 98"
proof -
  let ?w = "\<lparr>db = [alice], env = (), txn_window = 5\<rparr> :: (user_doc list, unit) world"
  let ?saved = "alice\<lparr>password := toy_hash ''new-secret'', passwordChangedAt := Some 99000\<rparr>"
  have f: "find (\<lambda>d. user_id d = ''alice'') (db ?w) = Some alice"
    by (simp add: alice_def)
  have c1: "toy_compare ''old-secret'' (password alice)"
    by (simp add: toy_compare_def alice_def)
  have c2: "\<not> toy_compare ''new-secret'' (password alice)"
    by (simp add: toy_compare_def toy_hash_def alice_def)
  have c3: "''new-secret'' \<noteq> password alice"
    by (simp add: toy_hash_def alice_def)
  have c4: "(1000::int) \<le> 100000" by simp
  have c5: "?saved = alice\<lparr>password := toy_hash ''new-secret'', passwordChangedAt := Some (100000 - 1000)\<rparr>"
    by simp
  have i: "user_id alice = ''alice''" by (simp add: alice_def)
  note t = session_invalidation
    [where bcrypt_compare = toy_compare and bcrypt_hash = toy_hash and userId = "''alice''"
       and currentPassword = "''old-secret''" and newPassword = "''new-secret''" and w = ?w
       and u = alice and now = 100000 and saved = ?saved, OF f c1 c2 c3 c4 c5]
  show ?thesis
    using t[of 99 alice] t[of 98 "alice\<lparr>passwordChangedAt := None\<rparr>"]
    by (simp add: i)
qed

end
